theory Spec2Isabelle
  imports Main "HOL-Library.Word"
begin

unbundle bit_operations_syntax

section \<open>JavaScript strings and the platform's TextEncoder\<close>

text \<open>
  A JavaScript string is a sequence of UTF-16 code units; \<open>length\<close> and \<open>slice\<close> count
  code units, not characters. A character outside the Basic Multilingual Plane is a pair
  of code units: a high surrogate (0xD800..0xDBFF) followed by a low one (0xDC00..0xDFFF).
\<close>

type_synonym jsstring = "16 word list"

definition is_high_surrogate :: "16 word \<Rightarrow> bool" where
  "is_high_surrogate u = (0xD800 \<le> u \<and> u \<le> 0xDBFF)"

definition is_low_surrogate :: "16 word \<Rightarrow> bool" where
  "is_low_surrogate u = (0xDC00 \<le> u \<and> u \<le> 0xDFFF)"

text \<open>The UTF-8 bytes of one code point (a scalar value below 0x110000).\<close>

definition utf8_of_code_point :: "nat \<Rightarrow> nat list" where
  "utf8_of_code_point c =
     (if c < 0x80 then [c]
      else if c < 0x800 then [0xC0 + c div 64, 0x80 + c mod 64]
      else if c < 0x10000 then [0xE0 + c div 4096, 0x80 + c div 64 mod 64, 0x80 + c mod 64]
      else [0xF0 + c div 262144, 0x80 + c div 4096 mod 64, 0x80 + c div 64 mod 64,
            0x80 + c mod 64])"

text \<open>A code unit that stands alone: itself, or U+FFFD when it is an unpaired surrogate.\<close>

definition lone_unit :: "16 word \<Rightarrow> nat" where
  "lone_unit u = (if is_high_surrogate u \<or> is_low_surrogate u then 0xFFFD else unat u)"

text \<open>
  \<open>new TextEncoder().encode(s)\<close> is a browser function, not code of this repository. It
  is modelled after the Encoding standard: the string is converted to scalar values (a
  surrogate pair is one code point, an unpaired surrogate becomes U+FFFD) and each is
  written in UTF-8.
\<close>

fun TextEncoder_encode :: "jsstring \<Rightarrow> nat list" where
  "TextEncoder_encode [] = []"
| "TextEncoder_encode [u] = utf8_of_code_point (lone_unit u)"
| "TextEncoder_encode (u # v # us) =
     (if is_high_surrogate u \<and> is_low_surrogate v
      then utf8_of_code_point (0x10000 + (unat u - 0xD800) * 1024 + (unat v - 0xDC00))
             @ TextEncoder_encode us
      else utf8_of_code_point (lone_unit u) @ TextEncoder_encode (v # us))"

section \<open>ProtoBuilder: the minimal protobuf writer of apiService.ts\<close>

text \<open>
  A JavaScript \<open>number\<close> that the builder receives is a non-negative integer (a field
  number, a wire type, a length, a constant, a channel index, a random packet id), so it is
  a \<open>nat\<close>. The private \<open>buffer: number[]\<close> is a \<open>nat list\<close>; \<open>push\<close> appends at the
  end. Every method takes the buffer and returns the new one.
\<close>

type_synonym ProtoBuilder = "nat list"

text \<open>\<open>value >>> 0\<close>: ToUint32 of a non-negative integer.\<close>

definition toUint32 :: "nat \<Rightarrow> nat" where
  "toUint32 v = v mod 2 ^ 32"

text \<open>
  The loop of \<open>addVarint\<close>:
  \<^verbatim>\<open>while (value > 127) { buffer.push((value & 0x7F) | 0x80); value >>>= 7; } buffer.push(value);\<close>
\<close>

function addVarint_loop :: "nat \<Rightarrow> ProtoBuilder \<Rightarrow> ProtoBuilder" where
  "addVarint_loop v buffer =
     (if v > 127 then addVarint_loop (drop_bit 7 v) (buffer @ [(v AND 0x7F) OR 0x80])
      else buffer @ [v])"
  by pat_completeness auto
termination
  by (relation "measure (\<lambda>(v, buffer). v)") (auto simp: drop_bit_eq_div)

declare addVarint_loop.simps [simp del]

definition addVarint :: "nat \<Rightarrow> ProtoBuilder \<Rightarrow> ProtoBuilder" where
  "addVarint v buffer = addVarint_loop (toUint32 v) buffer"

definition addTag :: "nat \<Rightarrow> nat \<Rightarrow> ProtoBuilder \<Rightarrow> ProtoBuilder" where
  "addTag fieldId wireType buffer = addVarint ((push_bit 3 fieldId) OR wireType) buffer"

text \<open>\<open>new Uint8Array(this.buffer)\<close>: every element is stored modulo 256.\<close>

definition getBytes :: "ProtoBuilder \<Rightarrow> nat list" where
  "getBytes buffer = map (\<lambda>b. b mod 256) buffer"

definition addString :: "nat \<Rightarrow> jsstring \<Rightarrow> ProtoBuilder \<Rightarrow> ProtoBuilder" where
  "addString fieldId text buffer =
     (let encoded = TextEncoder_encode text
      in addVarint (length encoded) (addTag fieldId 2 buffer) @ encoded)"

definition addBool :: "nat \<Rightarrow> bool \<Rightarrow> ProtoBuilder \<Rightarrow> ProtoBuilder" where
  "addBool fieldId b buffer = addVarint (if b then 1 else 0) (addTag fieldId 0 buffer)"

definition addUInt32 :: "nat \<Rightarrow> nat \<Rightarrow> ProtoBuilder \<Rightarrow> ProtoBuilder" where
  "addUInt32 fieldId v buffer = addVarint v (addTag fieldId 0 buffer)"

definition addFixed32 :: "nat \<Rightarrow> nat \<Rightarrow> ProtoBuilder \<Rightarrow> ProtoBuilder" where
  "addFixed32 fieldId v buffer =
     addTag fieldId 5 buffer @
       [drop_bit 0 (toUint32 v) AND 0xFF,
        drop_bit 8 (toUint32 v) AND 0xFF,
        drop_bit 16 (toUint32 v) AND 0xFF,
        drop_bit 24 (toUint32 v) AND 0xFF]"

definition addNested :: "nat \<Rightarrow> ProtoBuilder \<Rightarrow> ProtoBuilder \<Rightarrow> ProtoBuilder" where
  "addNested fieldId nested buffer =
     (let bytes = getBytes nested
      in addVarint (length bytes) (addTag fieldId 2 buffer) @ bytes)"

section \<open>Composing and framing a text broadcast (the pure part of sendText)\<close>

text \<open>
  Steps 1 to 3 of \<open>SerialHandler.sendText\<close>: the Data message, the MeshPacket around it
  and the ToRadio wrapper. \<open>packetId\<close> is the value of
  \<open>Math.floor(Math.random() * 0xFFFFFFFF)\<close>, supplied by the environment.
\<close>

definition dataPb :: "jsstring \<Rightarrow> ProtoBuilder" where
  "dataPb text = addString 2 text (addUInt32 1 1 [])"

definition meshPacketPb :: "jsstring \<Rightarrow> nat \<Rightarrow> nat \<Rightarrow> ProtoBuilder" where
  "meshPacketPb text channelIndex packetId =
     addBool 11 True
       (addUInt32 10 3
         (addFixed32 6 packetId
           (addNested 4 (dataPb text)
             (addUInt32 3 channelIndex
               (addFixed32 2 0xFFFFFFFF
                 (addFixed32 1 0 []))))))"

definition toRadioPb :: "jsstring \<Rightarrow> nat \<Rightarrow> nat \<Rightarrow> ProtoBuilder" where
  "toRadioPb text channelIndex packetId =
     addNested 1 (meshPacketPb text channelIndex packetId) []"

text \<open>
  Step 4: the header \<open>[0x94, 0xC3, (len >>> 8) & 0xFF, len & 0xFF]\<close> as a Uint8Array,
  followed by the protobuf bytes. There is no check of the length against 65535.
\<close>

definition serialFrame :: "nat list \<Rightarrow> nat list" where
  "serialFrame protoBytes =
     (let header = map (\<lambda>b. b mod 256)
            [0x94, 0xC3,
             drop_bit 8 (toUint32 (length protoBytes)) AND 0xFF,
             length protoBytes AND 0xFF]
      in header @ protoBytes)"

definition sendText_combined :: "jsstring \<Rightarrow> nat \<Rightarrow> nat \<Rightarrow> nat list" where
  "sendText_combined text channelIndex packetId =
     serialFrame (getBytes (toRadioPb text channelIndex packetId))"

section \<open>The byte-budget truncation of sendToMeshtastic\<close>

definition MAX_BYTES :: nat where
  "MAX_BYTES = 190"

text \<open>The string \<open>"..."\<close>.\<close>

definition ellipsis :: jsstring where
  "ellipsis = [0x2E, 0x2E, 0x2E]"

text \<open>
  \<^verbatim>\<open>while (encoder.encode(safeText).length > MAX_BYTES) safeText = safeText.slice(0, -1);\<close>
  \<open>slice(0, -1)\<close> drops the last code unit (\<open>butlast\<close>; the empty string stays empty).
\<close>

function trim_to_budget :: "jsstring \<Rightarrow> jsstring" where
  "trim_to_budget safeText =
     (if length (TextEncoder_encode safeText) > MAX_BYTES
      then trim_to_budget (butlast safeText) else safeText)"
  by pat_completeness auto
termination
proof (relation "measure length")
  show "wf (measure length)" by simp
next
  fix safeText :: jsstring
  assume "MAX_BYTES < length (TextEncoder_encode safeText)"
  then have "safeText \<noteq> []" by auto
  then show "(butlast safeText, safeText) \<in> measure length" by simp
qed

declare trim_to_budget.simps [simp del]

text \<open>
  \<^verbatim>\<open>while (encoder.encode(safeText + ellipsis).length > MAX_BYTES) safeText = safeText.slice(0, -1);\<close>
\<close>

function trim_for_ellipsis :: "jsstring \<Rightarrow> jsstring" where
  "trim_for_ellipsis safeText =
     (if length (TextEncoder_encode (safeText @ ellipsis)) > MAX_BYTES
      then trim_for_ellipsis (butlast safeText) else safeText)"
  by pat_completeness auto
termination
proof (relation "measure length")
  show "wf (measure length)" by simp
next
  fix safeText :: jsstring
  assume a: "MAX_BYTES < length (TextEncoder_encode (safeText @ ellipsis))"
  have "length (TextEncoder_encode ellipsis) = 3"
    by (simp add: ellipsis_def lone_unit_def is_high_surrogate_def is_low_surrogate_def
        utf8_of_code_point_def)
  with a have "safeText \<noteq> []" by (auto simp: MAX_BYTES_def)
  then show "(butlast safeText, safeText) \<in> measure length" by simp
qed

declare trim_for_ellipsis.simps [simp del]

text \<open>Lines 309 to 327 of apiService.ts: the value of \<open>safeText\<close> passed on to sendText.\<close>

definition truncateText :: "jsstring \<Rightarrow> jsstring" where
  "truncateText text =
     (let safeText = trim_to_budget text
      in if length safeText < length text
         then trim_for_ellipsis safeText @ ellipsis
         else safeText)"

section \<open>SerialHandler: the connection manager\<close>

text \<open>
  The Web Serial platform is not code of this repository; each call into it gets its
  outcome from the environment as an argument. A serial port object is identified by a
  number. \<open>dom_exception\<close> is the \<open>name\<close> of an exception the platform raises.
\<close>

datatype dom_exception =
  NotFoundError | SecurityError | NetworkError | InvalidStateError | TypeError | SyntaxError
  | OtherError

text \<open>
  What the code throws. Every one is a plain \<open>Error\<close> whose message tells them apart:
  \<^item> \<open>WebSerialNotSupported\<close>: "Web Serial API not supported. Please use Chrome, Edge, or Opera."
  \<^item> \<open>NoDeviceSelected\<close>: "No device selected. Please select your Meshtastic device from the list."
  \<^item> \<open>SecurityErrorHttps\<close>: "Security Error: To use Web Serial, this page must be served over HTTPS or localhost."
  \<^item> \<open>NetworkErrorInUse\<close>: "Network Error: The device may be disconnected or in use by another application."
  \<^item> \<open>Rethrown e\<close>: the platform's exception, thrown on unchanged
  \<^item> \<open>SerialPortNotConnected\<close>: "Serial port not connected"
  \<^item> \<open>SerialPortNotWritable\<close>: "Serial port not writable"
  \<^item> \<open>DeviceNotConnected\<close>: "Device not connected. Click 'Connect USB' in the header."
  \<^item> \<open>MeshtasticApiError status statusText\<close>: "Meshtastic API Error: status statusText"
\<close>

datatype js_error =
    WebSerialNotSupported
  | NoDeviceSelected
  | SecurityErrorHttps
  | NetworkErrorInUse
  | Rethrown dom_exception
  | SerialPortNotConnected
  | SerialPortNotWritable
  | DeviceNotConnected
  | MeshtasticApiError nat string

text \<open>
  The JSON body of the HTTP request, the request itself, and the response as the code
  reads it. \<open>body_is_json\<close> says whether \<open>response.json()\<close> can parse the body; when it
  cannot, \<open>response.json()\<close> raises a SyntaxError.
\<close>

record http_payload =
  to :: nat
  decoded_text :: jsstring
  decoded_portnum :: nat
  channel :: nat
  want_ack :: bool

record http_request =
  url :: string
  http_method :: string
  content_type :: string
  body :: http_payload

record http_response =
  ok :: bool
  status :: nat
  statusText :: string
  content_type_header :: "string option"
  response_body :: string
  body_is_json :: bool

text \<open>
  The state: the four private fields of \<open>SerialHandler\<close> (the module has one instance,
  \<open>serialHandler\<close>), and what the platform holds and has observed:
  \<^item> \<open>opened\<close>: the ports that are open, that is, whose \<open>readable\<close> and \<open>writable\<close>
    streams are not null;
  \<^item> \<open>locked\<close>: the ports whose writable stream is locked to a writer;
  \<^item> \<open>notified\<close>: the calls of status listeners made so far, in order (a listener is
    identified by a number);
  \<^item> \<open>written\<close>: the buffers handed to \<open>writer.write\<close> that were written, with their port;
  \<^item> \<open>requests\<close>: the HTTP requests issued with \<open>fetch\<close>.
\<close>

record state =
  port :: "nat option"
  writer :: "nat option"
  isConnected :: bool
  statusListeners :: "nat list"
  opened :: "nat set"
  locked :: "nat set"
  notified :: "(nat \<times> bool) list"
  written :: "(nat \<times> nat list) list"
  requests :: "http_request list"

definition initial :: state where
  "initial = \<lparr>port = None, writer = None, isConnected = False, statusListeners = [],
     opened = {}, locked = {}, notified = [], written = [], requests = []\<rparr>"


definition setConnected :: "bool \<Rightarrow> state \<Rightarrow> state" where
  "setConnected st s =
     s\<lparr>isConnected := st,
       notified := notified s @ map (\<lambda>cb. (cb, st)) (statusListeners s)\<rparr>"

text \<open>
  \<open>cleanupAndNotify\<close>. \<open>releaseThrows\<close> and \<open>closeThrows\<close> say whether
  \<open>writer.releaseLock()\<close> and \<open>port.close()\<close> raise; both exceptions are swallowed.
\<close>

definition cleanupAndNotify :: "bool \<Rightarrow> bool \<Rightarrow> state \<Rightarrow> state" where
  "cleanupAndNotify releaseThrows closeThrows s =
     (let s1 = (case writer s of
                  None \<Rightarrow> s
                | Some w \<Rightarrow>
                    (if releaseThrows then s else s\<lparr>locked := locked s - {w}\<rparr>)
                      \<lparr>writer := None\<rparr>);
          s2 = (case port s1 of
                  None \<Rightarrow> s1
                | Some p \<Rightarrow>
                    (if closeThrows then s1 else s1\<lparr>opened := opened s1 - {p}\<rparr>)
                      \<lparr>port := None\<rparr>)
      in setConnected False s2)"

text \<open>The \<open>catch\<close> block of \<open>connect\<close>.\<close>

definition connect_catch :: "dom_exception \<Rightarrow> state \<Rightarrow> (js_error + bool) \<times> state" where
  "connect_catch e s =
     (let s1 = setConnected False s
      in if e = NotFoundError then (Inl NoDeviceSelected, s1)
         else if e = SecurityError then (Inl SecurityErrorHttps, s1)
         else if e = NetworkError then (Inl NetworkErrorInUse, s1)
         else (Inl (Rethrown e), s1))"

text \<open>
  \<open>connect\<close>. \<open>serialInNavigator\<close> is \<open>'serial' in navigator\<close>; \<open>requestPortResult\<close> is
  the outcome of the device picker (an exception, or the chosen port); \<open>openResult\<close> is the
  exception \<open>port.open\<close> raises, if any.
\<close>

definition connect ::
  "bool \<Rightarrow> dom_exception + nat \<Rightarrow> dom_exception option \<Rightarrow> state
     \<Rightarrow> (js_error + bool) \<times> state" where
  "connect serialInNavigator requestPortResult openResult s =
     (if \<not> serialInNavigator then (Inl WebSerialNotSupported, s)
      else (case requestPortResult of
              Inl e \<Rightarrow> connect_catch e s
            | Inr p \<Rightarrow>
                (let s1 = s\<lparr>port := Some p\<rparr>
                 in (case openResult of
                       Some e \<Rightarrow> connect_catch e s1
                     | None \<Rightarrow>
                         (Inr True,
                          setConnected True (s1\<lparr>opened := insert p (opened s1)\<rparr>))))))"




definition getConnectedStatus :: "state \<Rightarrow> bool" where
  "getConnectedStatus s = isConnected s"

text \<open>
  \<open>sendText\<close>. \<open>getWriter()\<close> raises a TypeError when the stream is already locked;
  \<open>writeResult\<close> is the exception \<open>writer.write\<close> raises, if any. The \<open>finally\<close> block
  releases the lock on both paths.
\<close>

definition sendText ::
  "jsstring \<Rightarrow> nat \<Rightarrow> nat \<Rightarrow> dom_exception option \<Rightarrow> state
     \<Rightarrow> (js_error + string) \<times> state" where
  "sendText text channelIndex packetId writeResult s =
     (case port s of
        None \<Rightarrow> (Inl SerialPortNotConnected, s)
      | Some p \<Rightarrow>
          if \<not> isConnected s then (Inl SerialPortNotConnected, s)
          else if p \<notin> opened s then (Inl SerialPortNotWritable, s)
          else if p \<in> locked s then (Inl (Rethrown TypeError), s)
          else
            (let combined = sendText_combined text channelIndex packetId;
                 s1 = s\<lparr>locked := insert p (locked s)\<rparr>
             in (case writeResult of
                   None \<Rightarrow>
                     (Inr ''Message sent to Serial (Binary)'',
                      s1\<lparr>written := written s1 @ [(p, combined)],
                         locked := locked s1 - {p}\<rparr>)
                 | Some e \<Rightarrow> (Inl (Rethrown e), s1\<lparr>locked := locked s1 - {p}\<rparr>))))"

section \<open>sendToMeshtastic: the transport selector\<close>

datatype ConnectionMode = Http | Serial

record AppConfig =
  connectionMode :: ConnectionMode
  meshtasticIp :: string
  meshtasticChannelIndex :: nat
  corsProxy :: string
  srApiUrl :: string

text \<open>\<open>host.startsWith('http')\<close> and \<open>host.replace(/\/$/, '')\<close>.\<close>

definition startsWith :: "string \<Rightarrow> string \<Rightarrow> bool" where
  "startsWith s p = (take (length p) s = p)"

definition strip_trailing_slash :: "string \<Rightarrow> string" where
  "strip_trailing_slash s = (if s \<noteq> [] \<and> last s = CHR ''/'' then butlast s else s)"

text \<open>\<open>s.indexOf(p) !== -1\<close>.\<close>

fun contains :: "string \<Rightarrow> string \<Rightarrow> bool" where
  "contains [] p = (p = [])"
| "contains (c # cs) p = (startsWith (c # cs) p \<or> contains cs p)"

definition normalize_host :: "string \<Rightarrow> string" where
  "normalize_host host =
     strip_trailing_slash
       (if \<not> startsWith host ''http'' then ''http://'' @ host else host)"

datatype send_result = SerialMessage string | JsonBody string | TextBody string

text \<open>
  \<open>sendToMeshtastic\<close>. \<open>fetchResult\<close> is the outcome of \<open>fetch\<close>: an exception or the
  response. The request is recorded in \<open>requests\<close>. Whatever is thrown inside the \<open>try\<close>
  block (by \<open>fetch\<close>, by the status check, by \<open>response.json()\<close>) is logged and thrown on.
\<close>

definition sendToMeshtastic ::
  "AppConfig \<Rightarrow> jsstring \<Rightarrow> nat \<Rightarrow> dom_exception option
     \<Rightarrow> dom_exception + http_response \<Rightarrow> state \<Rightarrow> (js_error + send_result) \<times> state" where
  "sendToMeshtastic config text packetId writeResult fetchResult s =
     (if connectionMode config = Serial then
        (if \<not> getConnectedStatus s then (Inl DeviceNotConnected, s)
         else (case sendText (truncateText text) (meshtasticChannelIndex config)
                      packetId writeResult s of
                 (Inl e, s') \<Rightarrow> (Inl e, s')
               | (Inr m, s') \<Rightarrow> (Inr (SerialMessage m), s')))
      else
        (let host = normalize_host (meshtasticIp config);
             payload = \<lparr>to = 4294967295, decoded_text = text, decoded_portnum = 1,
                        channel = meshtasticChannelIndex config, want_ack = True\<rparr>;
             s1 = s\<lparr>requests := requests s @
                    [\<lparr>url = host @ ''/api/v1/toRadio'', http_method = ''PUT'',
                      content_type = ''application/json'', body = payload\<rparr>]\<rparr>
         in (case fetchResult of
               Inl e \<Rightarrow> (Inl (Rethrown e), s1)
             | Inr response \<Rightarrow>
                 if \<not> ok response
                 then (Inl (MeshtasticApiError (status response) (statusText response)), s1)
                 else (case content_type_header response of
                         None \<Rightarrow> (Inr (TextBody (response_body response)), s1)
                       | Some ct \<Rightarrow>
                           if ct \<noteq> [] \<and> contains ct ''application/json''
                           then (if body_is_json response
                                 then (Inr (JsonBody (response_body response)), s1)
                                 else (Inl (Rethrown SyntaxError), s1))
                           else (Inr (TextBody (response_body response)), s1)))))"

section \<open>Invariants of the connection manager\<close>



section \<open>The wire format in the specification's words\<close>

text \<open>
  Base-128 varint as the specification states it: 7 bits per byte, least-significant
  group first, the continuation bit 0x80 on every byte except the last.
\<close>

fun spec_varint :: "nat \<Rightarrow> nat list" where
  "spec_varint n = (if n < 128 then [n] else (n mod 128 + 128) # spec_varint (n div 128))"

declare spec_varint.simps [simp del]

text \<open>
  The decoder of the specification's round trip (the program only encodes): it reads
  groups while the continuation bit is set, and returns the value with the bytes that
  follow; \<open>None\<close> when the input ends inside a varint.
\<close>

fun spec_varint_decode :: "nat list \<Rightarrow> (nat \<times> nat list) option" where
  "spec_varint_decode [] = None"
| "spec_varint_decode (b # bs) =
     (if b < 128 then Some (b, bs)
      else (case spec_varint_decode bs of
              None \<Rightarrow> None
            | Some (v, rest) \<Rightarrow> Some (b mod 128 + 128 * v, rest)))"

text \<open>The number of significant bits of a value: 0 for 0, else the position of the top bit.\<close>

fun spec_bits_needed :: "nat \<Rightarrow> nat" where
  "spec_bits_needed n = (if n = 0 then 0 else Suc (spec_bits_needed (n div 2)))"

declare spec_bits_needed.simps [simp del]

definition spec_tag :: "nat \<Rightarrow> nat \<Rightarrow> nat list" where
  "spec_tag fieldNumber wireType = spec_varint (fieldNumber * 8 + wireType)"

definition spec_varint_field :: "nat \<Rightarrow> nat \<Rightarrow> nat list" where
  "spec_varint_field fieldNumber v = spec_tag fieldNumber 0 @ spec_varint v"

definition spec_length_delimited :: "nat \<Rightarrow> nat list \<Rightarrow> nat list" where
  "spec_length_delimited fieldNumber bytes =
     spec_tag fieldNumber 2 @ spec_varint (length bytes) @ bytes"

definition spec_fixed32 :: "nat \<Rightarrow> nat \<Rightarrow> nat list" where
  "spec_fixed32 fieldNumber v =
     spec_tag fieldNumber 5 @
       [v mod 256, v div 256 mod 256, v div 65536 mod 256, v div 16777216 mod 256]"

text \<open>
  The message shapes of the specification: \<open>Data {1: varint portnum = 1, 2: payload}\<close>,
  \<open>MeshPacket {1: fixed32 from = 0, 2: fixed32 to = 0xFFFFFFFF, 3: varint channel,
  4: nested Data, 6: fixed32 id, 10: varint hopLimit = 3, 11: varint wantAck = 1}\<close>,
  \<open>ToRadio {1: nested MeshPacket}\<close>, and the serial frame: 0x94 0xC3, the big-endian
  16-bit byte count of the payload, the payload.
\<close>

definition spec_Data :: "nat list \<Rightarrow> nat list" where
  "spec_Data payload = spec_varint_field 1 1 @ spec_length_delimited 2 payload"

definition spec_MeshPacket :: "nat \<Rightarrow> nat list \<Rightarrow> nat \<Rightarrow> nat list" where
  "spec_MeshPacket channelIndex payload packetId =
     spec_fixed32 1 0 @ spec_fixed32 2 0xFFFFFFFF @ spec_varint_field 3 channelIndex @
     spec_length_delimited 4 (spec_Data payload) @ spec_fixed32 6 packetId @
     spec_varint_field 10 3 @ spec_varint_field 11 1"

definition spec_ToRadio :: "nat \<Rightarrow> nat list \<Rightarrow> nat \<Rightarrow> nat list" where
  "spec_ToRadio channelIndex payload packetId =
     spec_length_delimited 1 (spec_MeshPacket channelIndex payload packetId)"

definition spec_SerialFrame :: "nat list \<Rightarrow> nat list" where
  "spec_SerialFrame payload =
     [0x94, 0xC3, length payload div 256, length payload mod 256] @ payload"

section \<open>Varints\<close>

lemma and_7F: "v AND 0x7F = v mod (128::nat)"
  using take_bit_eq_mask [of 7 v] by (simp add: take_bit_eq_mod mask_eq_exp_minus_1)

lemma bit_128: "bit (128::nat) n \<longleftrightarrow> n = 7"
  using bit_push_bit_iff [of 7 "1::nat" n] by (auto simp: bit_simps)

lemma varint_group: "(v AND 0x7F) OR 0x80 = v mod 128 + (128::nat)"
proof -
  have "\<not> bit (take_bit 7 v) n \<or> \<not> bit (128::nat) n" for n
    by (auto simp: bit_128 bit_take_bit_iff)
  then have "take_bit 7 v + 128 = take_bit 7 v OR (128::nat)"
    by (rule disjunctive_add)
  then show ?thesis
    by (simp add: and_7F take_bit_eq_mod)
qed

lemma addVarint_loop_spec: "addVarint_loop v buffer = buffer @ spec_varint v"
proof (induction v buffer rule: addVarint_loop.induct)
  case (1 v buffer)
  show ?case
  proof (cases "v > 127")
    case True
    have "addVarint_loop v buffer
            = addVarint_loop (drop_bit 7 v) (buffer @ [(v AND 0x7F) OR 0x80])"
      using True by (subst addVarint_loop.simps) simp
    also have "\<dots> = (buffer @ [(v AND 0x7F) OR 0x80]) @ spec_varint (drop_bit 7 v)"
      using "1.IH" [OF True] .
    also have "\<dots> = buffer @ (v mod 128 + 128) # spec_varint (v div 128)"
      by (simp add: varint_group drop_bit_eq_div)
    also have "\<dots> = buffer @ spec_varint v"
      using True by (subst (2) spec_varint.simps) simp
    finally show ?thesis .
  next
    case False
    then show ?thesis
      by (subst addVarint_loop.simps, subst spec_varint.simps) simp
  qed
qed

lemma addVarint_spec: "addVarint v buffer = buffer @ spec_varint (v mod 2 ^ 32)"
  by (simp add: addVarint_def toUint32_def addVarint_loop_spec)

lemma spec_varint_decode_encode:
  "spec_varint_decode (spec_varint v @ rest) = Some (v, rest)"
proof (induction v rule: spec_varint.induct)
  case (1 n)
  show ?case
  proof (cases "n < 128")
    case True
    then show ?thesis by (subst spec_varint.simps) simp
  next
    case False
    have "spec_varint n = (n mod 128 + 128) # spec_varint (n div 128)"
      using False by (subst spec_varint.simps) simp
    then show ?thesis
      using "1.IH" [OF False] by simp
  qed
qed

lemma spec_bits_needed_le: "spec_bits_needed n \<le> k \<longleftrightarrow> n < 2 ^ k"
proof (induction n arbitrary: k rule: spec_bits_needed.induct)
  case (1 n)
  show ?case
  proof (cases "n = 0")
    case True
    then show ?thesis by (subst spec_bits_needed.simps) simp
  next
    case False
    have e: "spec_bits_needed n = Suc (spec_bits_needed (n div 2))"
      using False by (subst spec_bits_needed.simps) simp
    show ?thesis
    proof (cases k)
      case 0
      then show ?thesis using False e by simp
    next
      case (Suc j)
      have "n div 2 < 2 ^ j \<longleftrightarrow> n < 2 ^ Suc j" by auto
      then show ?thesis using "1.IH" [OF False, of j] e Suc by simp
    qed
  qed
qed

lemma length_spec_varint_pos: "0 < length (spec_varint n)"
  by (subst spec_varint.simps) simp

lemma length_spec_varint_le: "length (spec_varint n) \<le> Suc k \<longleftrightarrow> n < 2 ^ (7 * Suc k)"
proof (induction n arbitrary: k rule: spec_varint.induct)
  case (1 n)
  show ?case
  proof (cases "n < 128")
    case True
    have "(2::nat) ^ 7 \<le> 2 ^ (7 * Suc k)" by (rule power_increasing) simp_all
    then have "n < 2 ^ (7 * Suc k)" using True by simp
    then show ?thesis using True by (subst spec_varint.simps) simp
  next
    case False
    have e: "length (spec_varint n) = Suc (length (spec_varint (n div 128)))"
      using False by (subst spec_varint.simps) simp
    show ?thesis
    proof (cases k)
      case 0
      then show ?thesis using False e length_spec_varint_pos [of "n div 128"] by simp
    next
      case (Suc j)
      have "n div 128 < 2 ^ (7 * Suc j) \<longleftrightarrow> n < 2 ^ (7 * Suc (Suc j))"
      proof -
        have "(2::nat) ^ (7 * Suc (Suc j)) = 128 * 2 ^ (7 * Suc j)"
          by (simp add: power_add)
        then show ?thesis by (simp add: div_less_iff_less_mult mult.commute)
      qed
      then show ?thesis using "1.IH" [OF False, of j] e Suc by simp
    qed
  qed
qed

lemma ceil7: "(b + 6) div 7 \<le> k \<longleftrightarrow> b \<le> 7 * (k::nat)"
  by arith

lemma length_spec_varint_bits:
  assumes "0 < v"
  shows "length (spec_varint v) = (spec_bits_needed v + 6) div 7"
proof -
  define L where "L = length (spec_varint v)"
  define M where "M = (spec_bits_needed v + 6) div 7"
  have iff: "L \<le> Suc k \<longleftrightarrow> M \<le> Suc k" for k
    unfolding L_def M_def length_spec_varint_le ceil7 spec_bits_needed_le ..
  have "\<not> v < 2 ^ (7 * 0)" using assms by simp
  then have "\<not> M \<le> 0"
    unfolding M_def ceil7 spec_bits_needed_le .
  then obtain m where m: "M = Suc m" by (cases M) auto
  have "0 < L" unfolding L_def by (rule length_spec_varint_pos)
  then obtain l where l: "L = Suc l" by (cases L) auto
  have "L \<le> Suc m" unfolding iff m ..
  moreover have "M \<le> Suc l" unfolding iff [symmetric] l ..
  ultimately have "L = M" using m l by simp
  then show ?thesis unfolding L_def M_def .
qed


text \<open>
  C9 (amended). For every 32-bit unsigned value \<open>v\<close>, \<open>addVarint\<close> appends the base-128
  varint of \<open>v\<close> (7 bits per byte, least-significant group first, continuation bit on
  every byte but the last); decoding it yields \<open>v\<close> and the bytes that followed; its byte
  count is \<open>ceil(bits_needed / 7)\<close> for \<open>v \<ge> 1\<close>, and one byte (0x00) for \<open>v = 0\<close>,
  whose number of significant bits is 0.
\<close>

theorem addVarint_roundtrip_and_size:
  assumes "v < 2 ^ 32"
  shows "addVarint v buffer = buffer @ spec_varint v
       \<and> spec_varint_decode (addVarint v [] @ rest) = Some (v, rest)
       \<and> length (addVarint v []) = (if v = 0 then 1 else (spec_bits_needed v + 6) div 7)"
proof -
  have e: "addVarint v b = b @ spec_varint v" for b
    using assms by (simp add: addVarint_spec)
  have "length (spec_varint v) = (if v = 0 then 1 else (spec_bits_needed v + 6) div 7)"
  proof (cases "v = 0")
    case True
    then show ?thesis by (subst spec_varint.simps) simp
  next
    case False
    then show ?thesis using length_spec_varint_bits [of v] by simp
  qed
  then show ?thesis
    by (simp add: e spec_varint_decode_encode)
qed

lemma spec_bits_needed_300: "spec_bits_needed 300 = 9"
  by code_simp

theorem addVarint_roundtrip_and_size_witness:
  "addVarint 300 [8] = [8, 172, 2]
   \<and> spec_varint_decode (addVarint 300 [] @ [7]) = Some (300, [7])
   \<and> length (addVarint 300 []) = 2"
proof -
  have s: "spec_varint 300 = [172, 2]" by code_simp
  show ?thesis
    using addVarint_roundtrip_and_size [of 300 "[8]" "[7]"]
    by (simp add: s spec_bits_needed_300)
qed

text \<open>
  The value 0 has no significant bit, so \<open>ceil(bits_needed / 7)\<close> is 0, but its varint
  is the one byte 0x00.
\<close>

theorem varint_size_zero_counterexample:
  "length (addVarint 0 []) = 1 \<and> (spec_bits_needed 0 + 6) div 7 = 0"
proof -
  have "addVarint 0 [] = [0]"
    by (simp add: addVarint_def toUint32_def, subst addVarint_loop.simps) simp
  moreover have "spec_bits_needed 0 = 0"
    by (subst spec_bits_needed.simps) simp
  ultimately show ?thesis by simp
qed
section \<open>Builder methods against the specification's encoders\<close>

lemma and_FF: "v AND 0xFF = v mod (256::nat)"
  using take_bit_eq_mask [of 8 v] by (simp add: take_bit_eq_mod mask_eq_exp_minus_1)

lemma mod_mult_div: "0 < a \<Longrightarrow> (v mod (a * b)) div a = (v div a) mod (b::nat)"
  by (simp add: mod_mult2_eq)

lemma tag_value:
  assumes "w < 8"
  shows "push_bit 3 f OR w = f * 8 + (w::nat)"
proof -
  have w: "take_bit 3 w = w" using assms by (simp add: take_bit_eq_mod)
  have "\<not> bit (push_bit 3 f) n \<or> \<not> bit (take_bit 3 w) n" for n
    by (auto simp: bit_push_bit_iff bit_take_bit_iff)
  then have "push_bit 3 f + take_bit 3 w = push_bit 3 f OR take_bit 3 w"
    by (rule disjunctive_add)
  then show ?thesis by (simp add: w push_bit_eq_mult)
qed

lemma addTag_spec:
  assumes "w < 8" and "f < 2 ^ 29"
  shows "addTag f w buffer = buffer @ spec_tag f w"
proof -
  have "f * 8 + w < 2 ^ 32" using assms by simp
  then show ?thesis
    by (simp add: addTag_def tag_value [OF assms(1)] addVarint_spec spec_tag_def)
qed

lemma fixed32_bytes:
  "toUint32 v AND 0xFF = v mod 256"
  "drop_bit 8 (toUint32 v) AND 0xFF = v div 256 mod 256"
  "drop_bit 16 (toUint32 v) AND 0xFF = v div 65536 mod 256"
  "drop_bit 24 (toUint32 v) AND 0xFF = v div 16777216 mod 256"
proof -
  show "toUint32 v AND 0xFF = v mod 256"
    using mod_mod_cancel [of 256 4294967296 v] by (simp add: and_FF toUint32_def)
  show "drop_bit 8 (toUint32 v) AND 0xFF = v div 256 mod 256"
    using mod_mult_div [of 256 v 16777216] mod_mod_cancel [of 256 16777216 "v div 256"]
    by (simp add: and_FF toUint32_def drop_bit_eq_div)
  show "drop_bit 16 (toUint32 v) AND 0xFF = v div 65536 mod 256"
    using mod_mult_div [of 65536 v 65536] mod_mod_cancel [of 256 65536 "v div 65536"]
    by (simp add: and_FF toUint32_def drop_bit_eq_div)
  show "drop_bit 24 (toUint32 v) AND 0xFF = v div 16777216 mod 256"
    using mod_mult_div [of 16777216 v 256]
    by (simp add: and_FF toUint32_def drop_bit_eq_div)
qed

lemma addFixed32_spec:
  assumes "f < 2 ^ 29"
  shows "addFixed32 f v buffer = buffer @ spec_fixed32 f v"
  using assms by (simp add: addFixed32_def spec_fixed32_def addTag_spec fixed32_bytes)

lemma addUInt32_spec:
  assumes "f < 2 ^ 29" and "v < 2 ^ 32"
  shows "addUInt32 f v buffer = buffer @ spec_varint_field f v"
  using assms by (simp add: addUInt32_def spec_varint_field_def addTag_spec addVarint_spec)

lemma addBool_spec:
  assumes "f < 2 ^ 29"
  shows "addBool f b buffer = buffer @ spec_varint_field f (if b then 1 else 0)"
  using assms by (simp add: addBool_def spec_varint_field_def addTag_spec addVarint_spec)

lemma addString_spec:
  assumes "f < 2 ^ 29" and "length (TextEncoder_encode text) < 2 ^ 32"
  shows "addString f text buffer
           = buffer @ spec_length_delimited f (TextEncoder_encode text)"
  using assms
  by (simp add: addString_def spec_length_delimited_def addTag_spec addVarint_spec Let_def)

lemma addNested_spec:
  assumes "f < 2 ^ 29" and "length nested < 2 ^ 32"
  shows "addNested f nested buffer = buffer @ spec_length_delimited f (getBytes nested)"
  using assms
  by (simp add: addNested_def spec_length_delimited_def addTag_spec addVarint_spec Let_def
      getBytes_def)

section \<open>Every byte is below 256\<close>

lemma getBytes_id: "\<forall>b \<in> set xs. b < 256 \<Longrightarrow> getBytes xs = xs"
  by (simp add: getBytes_def map_idI)

lemma spec_varint_bytes: "b \<in> set (spec_varint n) \<Longrightarrow> b < 256"
proof (induction n rule: spec_varint.induct)
  case (1 n)
  show ?case
  proof (cases "n < 128")
    case True
    then show ?thesis using "1.prems" by (subst (asm) spec_varint.simps) simp
  next
    case False
    have "spec_varint n = (n mod 128 + 128) # spec_varint (n div 128)"
      using False by (subst spec_varint.simps) simp
    with "1.prems" have "b = n mod 128 + 128 \<or> b \<in> set (spec_varint (n div 128))"
      by simp
    then show ?thesis
    proof
      assume "b = n mod 128 + 128"
      moreover have "n mod 128 < 128" by simp
      ultimately show ?thesis by linarith
    next
      assume "b \<in> set (spec_varint (n div 128))"
      then show ?thesis using "1.IH" [OF False] by simp
    qed
  qed
qed

lemma utf8_of_code_point_bytes:
  assumes "c < 0x110000" and "b \<in> set (utf8_of_code_point c)"
  shows "b < 256"
proof -
  have m: "c mod 64 < 64" "c div 64 mod 64 < 64" "c div 4096 mod 64 < 64" by simp_all
  consider "c < 0x80" | "0x80 \<le> c" "c < 0x800" | "0x800 \<le> c" "c < 0x10000" | "0x10000 \<le> c"
    by linarith
  then show ?thesis
  proof cases
    case 1
    then show ?thesis using assms(2) by (simp add: utf8_of_code_point_def)
  next
    case 2
    then have "c div 64 < 32" by simp
    then show ?thesis using 2 assms(2) m by (auto simp: utf8_of_code_point_def)
  next
    case 3
    then have "c div 4096 < 16" by simp
    then show ?thesis using 3 assms(2) m by (auto simp: utf8_of_code_point_def)
  next
    case 4
    have "c div 262144 < 5" using assms(1) by simp
    then show ?thesis using 4 assms(2) m by (auto simp: utf8_of_code_point_def)
  qed
qed

lemma lone_unit_bound: "lone_unit u < 0x110000"
proof -
  have "unat u < 2 ^ 16" using unsigned_less [of u] by simp
  then show ?thesis by (simp add: lone_unit_def)
qed

lemma pair_bound:
  assumes "is_high_surrogate u" and "is_low_surrogate v"
  shows "0x10000 + (unat u - 0xD800) * 1024 + (unat v - 0xDC00) < (0x110000::nat)"
proof -
  have "unat u \<le> 0xDBFF" using assms(1) by (simp add: is_high_surrogate_def word_le_nat_alt)
  moreover have "unat v \<le> 0xDFFF" using assms(2) by (simp add: is_low_surrogate_def word_le_nat_alt)
  ultimately show ?thesis by simp
qed

lemma TextEncoder_encode_bytes: "b \<in> set (TextEncoder_encode s) \<Longrightarrow> b < 256"
proof (induction s rule: TextEncoder_encode.induct)
  case 1
  then show ?case by simp
next
  case (2 u)
  then show ?case using utf8_of_code_point_bytes [OF lone_unit_bound] by simp
next
  case (3 u v us)
  show ?case
  proof (cases "is_high_surrogate u \<and> is_low_surrogate v")
    case True
    then show ?thesis
      using "3.prems" "3.IH"(1) utf8_of_code_point_bytes [OF pair_bound, of u v b] by auto
  next
    case False
    then show ?thesis
      using "3.prems" "3.IH"(2) utf8_of_code_point_bytes [OF lone_unit_bound, of b u] by auto
  qed
qed

lemma spec_tag_bytes: "b \<in> set (spec_tag f w) \<Longrightarrow> b < 256"
  by (simp add: spec_tag_def spec_varint_bytes)

lemma spec_varint_field_bytes: "b \<in> set (spec_varint_field f v) \<Longrightarrow> b < 256"
  by (auto simp: spec_varint_field_def dest: spec_tag_bytes spec_varint_bytes)

lemma spec_fixed32_bytes: "b \<in> set (spec_fixed32 f v) \<Longrightarrow> b < 256"
  by (auto simp: spec_fixed32_def dest: spec_tag_bytes)

lemma spec_length_delimited_bytes:
  "\<forall>x \<in> set bytes. x < 256 \<Longrightarrow> b \<in> set (spec_length_delimited f bytes) \<Longrightarrow> b < 256"
  by (auto simp: spec_length_delimited_def dest: spec_tag_bytes spec_varint_bytes)

section \<open>The composed message\<close>

lemma spec_varint_small: "n < 128 \<Longrightarrow> spec_varint n = [n]"
  by (subst spec_varint.simps) simp

lemma length_spec_varint_le5: "n < 2 ^ 32 \<Longrightarrow> length (spec_varint n) \<le> 5"
proof -
  assume "n < 2 ^ 32"
  then have "n < 2 ^ (7 * Suc 4)" by simp
  then have "length (spec_varint n) \<le> Suc 4" by (simp only: length_spec_varint_le)
  then show ?thesis by simp
qed

lemma spec_Data_bytes:
  "\<forall>x \<in> set payload. x < 256 \<Longrightarrow> b \<in> set (spec_Data payload) \<Longrightarrow> b < 256"
  unfolding spec_Data_def
  using spec_varint_field_bytes spec_length_delimited_bytes by fastforce

lemma length_spec_Data:
  assumes "length payload < 2 ^ 24"
  shows "length (spec_Data payload) \<le> length payload + 8"
proof -
  have "length (spec_varint (length payload)) \<le> 5"
    using assms by (intro length_spec_varint_le5) simp
  then show ?thesis
    by (simp add: spec_Data_def spec_varint_field_def spec_length_delimited_def spec_tag_def
        spec_varint_small)
qed

lemma dataPb_spec:
  assumes "length (TextEncoder_encode text) < 2 ^ 24"
  shows "dataPb text = spec_Data (TextEncoder_encode text)"
proof -
  have "length (TextEncoder_encode text) < 2 ^ 32" using assms by simp
  then show ?thesis
    by (simp add: dataPb_def spec_Data_def addUInt32_spec addString_spec)
qed

lemma spec_MeshPacket_bytes:
  assumes "\<forall>x \<in> set payload. x < 256" and "b \<in> set (spec_MeshPacket ch payload pid)"
  shows "b < 256"
proof -
  have d: "\<forall>x \<in> set (spec_Data payload). x < 256"
    using spec_Data_bytes [OF assms(1)] by blast
  show ?thesis
    using assms(2) spec_fixed32_bytes spec_varint_field_bytes
      spec_length_delimited_bytes [OF d]
    unfolding spec_MeshPacket_def by (auto simp del: spec_fixed32_def)
qed

lemma length_spec_MeshPacket:
  assumes "length payload < 2 ^ 24" and "ch < 2 ^ 32"
  shows "length (spec_MeshPacket ch payload pid) \<le> length payload + 39"
proof -
  have d: "length (spec_Data payload) \<le> length payload + 8"
    by (rule length_spec_Data [OF assms(1)])
  then have "length (spec_Data payload) < 2 ^ 32" using assms(1) by simp
  then have v: "length (spec_varint (length (spec_Data payload))) \<le> 5"
    by (rule length_spec_varint_le5)
  have c: "length (spec_varint ch) \<le> 5"
    by (rule length_spec_varint_le5 [OF assms(2)])
  show ?thesis
    using d v c
    by (simp add: spec_MeshPacket_def spec_fixed32_def spec_varint_field_def
        spec_length_delimited_def spec_tag_def spec_varint_small)
qed

lemma meshPacketPb_spec:
  assumes "length (TextEncoder_encode text) < 2 ^ 24" and "ch < 2 ^ 32"
  shows "meshPacketPb text ch pid = spec_MeshPacket ch (TextEncoder_encode text) pid"
proof -
  let ?payload = "TextEncoder_encode text"
  have p: "\<forall>x \<in> set ?payload. x < 256" using TextEncoder_encode_bytes by blast
  have d: "dataPb text = spec_Data ?payload" by (rule dataPb_spec [OF assms(1)])
  have g: "getBytes (spec_Data ?payload) = spec_Data ?payload"
    using spec_Data_bytes [OF p] by (intro getBytes_id) blast
  have "length (spec_Data ?payload) \<le> length ?payload + 8"
    by (rule length_spec_Data [OF assms(1)])
  then have l: "length (spec_Data ?payload) < 2 ^ 32" using assms(1) by simp
  show ?thesis
    using assms(2) l
    by (simp add: meshPacketPb_def spec_MeshPacket_def d g addFixed32_spec addUInt32_spec
        addNested_spec addBool_spec)
qed

lemma toRadioPb_spec:
  assumes "length (TextEncoder_encode text) < 2 ^ 24" and "ch < 2 ^ 32"
  shows "getBytes (toRadioPb text ch pid) = spec_ToRadio ch (TextEncoder_encode text) pid"
proof -
  let ?payload = "TextEncoder_encode text"
  let ?mesh = "spec_MeshPacket ch ?payload pid"
  have p: "\<forall>x \<in> set ?payload. x < 256" using TextEncoder_encode_bytes by blast
  have m: "meshPacketPb text ch pid = ?mesh" by (rule meshPacketPb_spec [OF assms])
  have mb: "\<forall>x \<in> set ?mesh. x < 256" using spec_MeshPacket_bytes [OF p] by blast
  have g: "getBytes ?mesh = ?mesh" using mb by (rule getBytes_id)
  have "length ?mesh \<le> length ?payload + 39" by (rule length_spec_MeshPacket [OF assms])
  then have l: "length ?mesh < 2 ^ 32" using assms(1) by simp
  have t: "toRadioPb text ch pid = spec_ToRadio ch ?payload pid"
    using l by (simp add: toRadioPb_def spec_ToRadio_def m g addNested_spec)
  have "\<forall>x \<in> set (spec_ToRadio ch ?payload pid). x < 256"
    unfolding spec_ToRadio_def using spec_length_delimited_bytes [OF mb] by blast
  then show ?thesis unfolding t by (rule getBytes_id)
qed

lemma length_spec_ToRadio:
  assumes "length payload < 2 ^ 24" and "ch < 2 ^ 32"
  shows "length (spec_ToRadio ch payload pid) \<le> length payload + 45"
proof -
  have m: "length (spec_MeshPacket ch payload pid) \<le> length payload + 39"
    by (rule length_spec_MeshPacket [OF assms])
  then have "length (spec_MeshPacket ch payload pid) < 2 ^ 32" using assms(1) by simp
  then have "length (spec_varint (length (spec_MeshPacket ch payload pid))) \<le> 5"
    by (rule length_spec_varint_le5)
  then show ?thesis
    using m by (simp add: spec_ToRadio_def spec_length_delimited_def spec_tag_def spec_varint_small)
qed

lemma serialFrame_bytes:
  "serialFrame protoBytes =
     [0x94, 0xC3, length protoBytes div 256 mod 256, length protoBytes mod 256] @ protoBytes"
  by (simp add: serialFrame_def fixed32_bytes [unfolded and_FF] and_FF)

lemma serialFrame_spec:
  "length protoBytes < 65536 \<Longrightarrow> serialFrame protoBytes = spec_SerialFrame protoBytes"
  by (simp add: serialFrame_bytes spec_SerialFrame_def div_less_iff_less_mult)

section \<open>sendText on a connected handler\<close>

lemma sendText_connected:
  assumes "port s = Some p" and "isConnected s" and "p \<in> opened s" and "p \<notin> locked s"
  shows "sendText text channelIndex packetId None s =
           (Inr ''Message sent to Serial (Binary)'',
            s\<lparr>written := written s @ [(p, sendText_combined text channelIndex packetId)]\<rparr>)"
proof -
  have "insert p (locked s) - {p} = locked s" using assms(4) by auto
  then show ?thesis using assms by (simp add: sendText_def Let_def)
qed

lemma sendText_writes_spec_frame:
  assumes "port s = Some p" and "isConnected s" and "p \<in> opened s" and "p \<notin> locked s"
    and "length (TextEncoder_encode text) \<le> 190" and "channelIndex \<le> 7"
  shows "sendText text channelIndex packetId None s =
           (Inr ''Message sent to Serial (Binary)'',
            s\<lparr>written := written s @
                 [(p, spec_SerialFrame
                        (spec_ToRadio channelIndex (TextEncoder_encode text) packetId))]\<rparr>)"
proof -
  let ?payload = "TextEncoder_encode text"
  have a: "length ?payload < 2 ^ 24" using assms(5) by simp
  have c: "channelIndex < 2 ^ 32" using assms(6) by simp
  have t: "getBytes (toRadioPb text channelIndex packetId)
             = spec_ToRadio channelIndex ?payload packetId"
    by (rule toRadioPb_spec [OF a c])
  have "length (spec_ToRadio channelIndex ?payload packetId) \<le> length ?payload + 45"
    by (rule length_spec_ToRadio [OF a c])
  then have "length (spec_ToRadio channelIndex ?payload packetId) < 65536"
    using assms(5) by simp
  then have "sendText_combined text channelIndex packetId
               = spec_SerialFrame (spec_ToRadio channelIndex ?payload packetId)"
    by (simp add: sendText_combined_def t serialFrame_spec)
  then show ?thesis
    using sendText_connected [OF assms(1-4)] by simp
qed

text \<open>
  C1. On a connected handler whose port is writable, for a text of at most 190 UTF-8
  bytes and a channel index 0 to 7, \<open>sendText\<close> writes exactly one buffer: 0x94 0xC3, the
  big-endian 16-bit byte count of the ToRadio message, and the ToRadio message with the
  fields of the specification in their order, each after its tag.
\<close>

theorem sendText_wire_format:
  assumes "port s = Some p" and "isConnected s" and "p \<in> opened s" and "p \<notin> locked s"
    and "length (TextEncoder_encode text) \<le> 190" and "channelIndex \<le> 7"
  shows "sendText text channelIndex packetId None s =
           (Inr ''Message sent to Serial (Binary)'',
            s\<lparr>written := written s @
                 [(p, spec_SerialFrame
                        (spec_ToRadio channelIndex (TextEncoder_encode text) packetId))]\<rparr>)"
  using assms by (rule sendText_writes_spec_frame)

lemma TextEncoder_encode_Hello:
  "TextEncoder_encode [0x48, 0x65, 0x6C, 0x6C, 0x6F] = [0x48, 0x65, 0x6C, 0x6C, 0x6F]"
  by (simp add: is_high_surrogate_def is_low_surrogate_def lone_unit_def
      utf8_of_code_point_def)

lemma Data_Hello:
  "spec_Data [0x48, 0x65, 0x6C, 0x6C, 0x6F] = [0x08, 1, 0x12, 5, 0x48, 0x65, 0x6C, 0x6C, 0x6F]"
  by (simp add: spec_Data_def spec_length_delimited_def spec_varint_field_def
      spec_tag_def spec_varint_small)

lemma MeshPacket_Hello:
  "spec_MeshPacket 0 [0x48, 0x65, 0x6C, 0x6C, 0x6F] 0x12345678 =
     [0x0D, 0, 0, 0, 0, 0x15, 0xFF, 0xFF, 0xFF, 0xFF, 0x18, 0,
      0x22, 9, 0x08, 1, 0x12, 5, 0x48, 0x65, 0x6C, 0x6C, 0x6F,
      0x35, 0x78, 0x56, 0x34, 0x12, 0x50, 3, 0x58, 1]"
  by (simp add: spec_MeshPacket_def Data_Hello spec_length_delimited_def spec_varint_field_def
      spec_fixed32_def spec_tag_def spec_varint_small)

lemma ToRadio_Hello:
  "spec_SerialFrame (spec_ToRadio 0 [0x48, 0x65, 0x6C, 0x6C, 0x6F] 0x12345678) =
     [0x94, 0xC3, 0x00, 0x22, 0x0A, 0x20, 
      0x0D, 0, 0, 0, 0, 0x15, 0xFF, 0xFF, 0xFF, 0xFF, 0x18, 0,
      0x22, 9, 0x08, 1, 0x12, 5, 0x48, 0x65, 0x6C, 0x6C, 0x6F,
      0x35, 0x78, 0x56, 0x34, 0x12, 0x50, 3, 0x58, 1]"
  by (simp add: spec_SerialFrame_def spec_ToRadio_def MeshPacket_Hello spec_length_delimited_def
     spec_tag_def spec_varint_small)

theorem sendText_wire_format_witness:
  "sendText [0x48, 0x65, 0x6C, 0x6C, 0x6F] 0 0x12345678 None
     \<lparr>port = Some 0, writer = None, isConnected = True, statusListeners = [],
      opened = {0}, locked = {}, notified = [], written = [], requests = []\<rparr>
   = (Inr ''Message sent to Serial (Binary)'',
      \<lparr>port = Some 0, writer = None, isConnected = True, statusListeners = [],
       opened = {0}, locked = {}, notified = [],
       written = [(0, [0x94, 0xC3, 0x00, 0x22,
                       0x0A, 0x20,
                       0x0D, 0, 0, 0, 0,
                       0x15, 0xFF, 0xFF, 0xFF, 0xFF,
                       0x18, 0,
                       0x22, 9, 0x08, 1, 0x12, 5, 0x48, 0x65, 0x6C, 0x6C, 0x6F,
                       0x35, 0x78, 0x56, 0x34, 0x12,
                       0x50, 3,
                       0x58, 1])],
       requests = []\<rparr>)"
proof -
  define conn :: state where
    "conn = \<lparr>port = Some 0, writer = None, isConnected = True, statusListeners = [],
      opened = {0}, locked = {}, notified = [], written = [], requests = []\<rparr>"
  have h1: "port conn = Some 0" and h2: "isConnected conn" and h3: "0 \<in> opened conn"
    and h4: "0 \<notin> locked conn"
    by (simp_all add: conn_def)
  have h5: "length (TextEncoder_encode [0x48, 0x65, 0x6C, 0x6C, 0x6F]) \<le> 190"
    by (simp only: TextEncoder_encode_Hello) simp
  have h6: "(0::nat) \<le> 7" by simp
  have "sendText [0x48, 0x65, 0x6C, 0x6C, 0x6F] 0 0x12345678 None conn
          = (Inr ''Message sent to Serial (Binary)'',
             conn\<lparr>written := written conn @
               [(0, spec_SerialFrame
                      (spec_ToRadio 0 (TextEncoder_encode [0x48, 0x65, 0x6C, 0x6C, 0x6F])
                         0x12345678))]\<rparr>)"
    by (rule sendText_wire_format [OF h1 h2 h3 h4 h5 h6])
  then show ?thesis
    by (simp only: TextEncoder_encode_Hello ToRadio_Hello) (simp add: conn_def)
qed
text \<open>
  C2 (amended). \<open>sendText\<close> has no length check and raises no error for any payload
  size: on a connected handler it always writes 0x94 0xC3, the two low bytes of the
  payload's byte count (big-endian), and the payload. The length field is the exact byte
  count whenever the payload has at most 65535 bytes.
\<close>

theorem sendText_frame_length_field:
  assumes "port s = Some p" and "isConnected s" and "p \<in> opened s" and "p \<notin> locked s"
  shows "(let payload = getBytes (toRadioPb text channelIndex packetId);
              hi = length payload div 256 mod 256;
              lo = length payload mod 256
          in sendText text channelIndex packetId None s =
               (Inr ''Message sent to Serial (Binary)'',
                s\<lparr>written := written s @ [(p, [0x94, 0xC3, hi, lo] @ payload)]\<rparr>)
             \<and> (length payload \<le> 65535 \<longrightarrow> 256 * hi + lo = length payload))"
proof -
  have "l \<le> 65535 \<Longrightarrow> 256 * (l div 256 mod 256) + l mod 256 = l" for l :: nat
  proof -
    assume "l \<le> 65535"
    then have "l div 256 < 256" by simp
    then show ?thesis by simp
  qed
  then show ?thesis
    using sendText_connected [OF assms]
    by (simp add: Let_def sendText_combined_def serialFrame_bytes)
qed

lemma TextEncoder_encode_not_high:
  "\<not> is_high_surrogate u \<Longrightarrow>
     TextEncoder_encode (u # us) = utf8_of_code_point (lone_unit u) @ TextEncoder_encode us"
  by (cases us) simp_all

lemma TextEncoder_encode_ascii:
  "\<forall>u \<in> set us. u < 0x80 \<Longrightarrow> TextEncoder_encode us = map unat us"
proof (induction us)
  case Nil
  then show ?case by simp
next
  case (Cons u us)
  then have u: "u < 0x80" by simp
  then have nh: "\<not> is_high_surrogate u" and nl: "\<not> is_low_surrogate u"
    by (simp_all add: is_high_surrogate_def is_low_surrogate_def word_le_nat_alt
        word_less_nat_alt)
  have "unat u < 0x80" using u by (simp add: word_less_nat_alt)
  then have "utf8_of_code_point (lone_unit u) = [unat u]"
    using nh nl by (simp add: lone_unit_def utf8_of_code_point_def)
  then show ?case
    using Cons by (simp add: TextEncoder_encode_not_high [OF nh])
qed

lemma length_spec_varint_3:
  assumes "2 ^ 14 \<le> n" and "n < 2 ^ 21"
  shows "length (spec_varint n) = 3"
proof -
  have "n < 2 ^ (7 * Suc 2)" using assms(2) by simp
  then have a: "length (spec_varint n) \<le> Suc 2" by (simp only: length_spec_varint_le)
  have "\<not> n < 2 ^ (7 * Suc 1)" using assms(1) by simp
  then have b: "\<not> length (spec_varint n) \<le> Suc 1" unfolding length_spec_varint_le .
  from a b show ?thesis by simp
qed

lemma toRadio_70000:
  "length (getBytes (toRadioPb (replicate 70000 0x61) 0 0)) = 70035"
proof -
  let ?text = "replicate 70000 (0x61::16 word)"
  have e: "TextEncoder_encode ?text = map unat ?text"
    by (rule TextEncoder_encode_ascii) simp
  then have l: "length (TextEncoder_encode ?text) = 70000" by simp
  have t: "getBytes (toRadioPb ?text 0 0) = spec_ToRadio 0 (TextEncoder_encode ?text) 0"
    by (rule toRadioPb_spec) (simp_all add: l)
  have d: "length (spec_Data (TextEncoder_encode ?text)) = 70006"
    by (simp add: spec_Data_def spec_varint_field_def spec_length_delimited_def spec_tag_def
        spec_varint_small l length_spec_varint_3)
  have m: "length (spec_MeshPacket 0 (TextEncoder_encode ?text) 0) = 70031"
    by (simp add: spec_MeshPacket_def spec_varint_field_def spec_length_delimited_def
        spec_fixed32_def spec_tag_def spec_varint_small d length_spec_varint_3)
  show ?thesis
    by (simp add: t spec_ToRadio_def spec_length_delimited_def spec_tag_def
        spec_varint_small m length_spec_varint_3)
qed

text \<open>
  A text of 70000 letters \<open>a\<close> gives a ToRadio message of 70035 bytes. \<open>sendText\<close> raises
  no error: it writes a frame whose length field is 0x1193 = 4499 = 70035 - 65536.
\<close>

theorem sendText_oversize_counterexample:
  "fst (sendText (replicate 70000 0x61) 0 0 None
          \<lparr>port = Some 0, writer = None, isConnected = True, statusListeners = [],
           opened = {0}, locked = {}, notified = [], written = [], requests = []\<rparr>)
     = Inr ''Message sent to Serial (Binary)''
   \<and> length (getBytes (toRadioPb (replicate 70000 0x61) 0 0)) = 70035
   \<and> take 4 (sendText_combined (replicate 70000 0x61) 0 0) = [0x94, 0xC3, 0x11, 0x93]"
proof -
  define conn :: state where
    "conn = \<lparr>port = Some 0, writer = None, isConnected = True, statusListeners = [],
      opened = {0}, locked = {}, notified = [], written = [], requests = []\<rparr>"
  have h1: "port conn = Some 0" and h2: "isConnected conn" and h3: "0 \<in> opened conn"
    and h4: "0 \<notin> locked conn"
    by (simp_all add: conn_def)
  have a: "fst (sendText (replicate 70000 0x61) 0 0 None conn)
             = Inr ''Message sent to Serial (Binary)''"
    by (simp only: sendText_connected [OF h1 h2 h3 h4] fst_conv)
  have b: "take 4 (sendText_combined (replicate 70000 0x61) 0 0) = [0x94, 0xC3, 0x11, 0x93]"
    by (simp add: sendText_combined_def serialFrame_bytes toRadio_70000)
  show ?thesis
    using a b toRadio_70000 unfolding conn_def by simp
qed

theorem sendText_frame_length_field_witness:
  "sendText [0x48, 0x65, 0x6C, 0x6C, 0x6F] 0 0x12345678 None
     \<lparr>port = Some 0, writer = None, isConnected = True, statusListeners = [],
      opened = {0}, locked = {}, notified = [], written = [], requests = []\<rparr>
   = (Inr ''Message sent to Serial (Binary)'',
      \<lparr>port = Some 0, writer = None, isConnected = True, statusListeners = [],
       opened = {0}, locked = {}, notified = [],
       written = [(0, [0x94, 0xC3, 0, 34] @
                      getBytes (toRadioPb [0x48, 0x65, 0x6C, 0x6C, 0x6F] 0 0x12345678))],
       requests = []\<rparr>)
   \<and> length (getBytes (toRadioPb [0x48, 0x65, 0x6C, 0x6C, 0x6F] 0 0x12345678)) = 34"
proof -
  define conn :: state where
    "conn = \<lparr>port = Some 0, writer = None, isConnected = True, statusListeners = [],
      opened = {0}, locked = {}, notified = [], written = [], requests = []\<rparr>"
  have h1: "port conn = Some 0" and h2: "isConnected conn" and h3: "0 \<in> opened conn"
    and h4: "0 \<notin> locked conn"
    by (simp_all add: conn_def)
  have "getBytes (toRadioPb [0x48, 0x65, 0x6C, 0x6C, 0x6F] 0 0x12345678)
          = spec_ToRadio 0 (TextEncoder_encode [0x48, 0x65, 0x6C, 0x6C, 0x6F]) 0x12345678"
    by (rule toRadioPb_spec) (simp_all only: TextEncoder_encode_Hello, simp_all)
  then have g: "getBytes (toRadioPb [0x48, 0x65, 0x6C, 0x6C, 0x6F] 0 0x12345678)
          = spec_ToRadio 0 [0x48, 0x65, 0x6C, 0x6C, 0x6F] 0x12345678"
    unfolding TextEncoder_encode_Hello .
  have "length (spec_ToRadio 0 [0x48, 0x65, 0x6C, 0x6C, 0x6F] 0x12345678) = 34"
    using ToRadio_Hello by (simp add: spec_SerialFrame_def)
  then have l: "length (getBytes (toRadioPb [0x48, 0x65, 0x6C, 0x6C, 0x6F] 0 0x12345678)) = 34"
    by (simp only: g)
  show ?thesis
    using sendText_frame_length_field [OF h1 h2 h3 h4, of "[0x48, 0x65, 0x6C, 0x6C, 0x6F]" 0
        "0x12345678"]
    by (simp add: Let_def l conn_def)
qed

section \<open>The truncation\<close>

lemma trim_to_budget_le: "length (TextEncoder_encode (trim_to_budget s)) \<le> MAX_BYTES"
proof (induction s rule: trim_to_budget.induct)
  case (1 safeText)
  show ?case
  proof (cases "length (TextEncoder_encode safeText) > MAX_BYTES")
    case True
    then show ?thesis using "1.IH" by (subst trim_to_budget.simps) simp
  next
    case False
    then show ?thesis by (subst trim_to_budget.simps) simp
  qed
qed

lemma trim_for_ellipsis_le:
  "length (TextEncoder_encode (trim_for_ellipsis s @ ellipsis)) \<le> MAX_BYTES"
proof (induction s rule: trim_for_ellipsis.induct)
  case (1 safeText)
  show ?case
  proof (cases "length (TextEncoder_encode (safeText @ ellipsis)) > MAX_BYTES")
    case True
    then show ?thesis using "1.IH" by (subst trim_for_ellipsis.simps) simp
  next
    case False
    then show ?thesis by (subst trim_for_ellipsis.simps) simp
  qed
qed

lemma trim_to_budget_safe:
  "length (TextEncoder_encode s) \<le> MAX_BYTES \<Longrightarrow> trim_to_budget s = s"
  by (subst trim_to_budget.simps) simp

lemma truncateText_safe:
  "length (TextEncoder_encode s) \<le> MAX_BYTES \<Longrightarrow> truncateText s = s"
  by (simp add: truncateText_def trim_to_budget_safe)

lemma truncateText_le: "length (TextEncoder_encode (truncateText s)) \<le> MAX_BYTES"
  using trim_to_budget_le [of s] trim_for_ellipsis_le [of "trim_to_budget s"]
  unfolding truncateText_def Let_def
  by (cases "length (trim_to_budget s) < length s") simp_all

text \<open>
  C3. For every input string, the text that the truncation hands to \<open>sendText\<close> has at
  most 190 UTF-8 bytes.
\<close>

theorem truncateText_within_budget:
  "length (TextEncoder_encode (truncateText text)) \<le> 190"
  using truncateText_le [of "text"] by (simp add: MAX_BYTES_def)

text \<open>
  C5. A string already within the 190-byte budget is returned unchanged, and truncating
  the result of a truncation changes nothing.
\<close>

theorem truncateText_idempotent:
  "(length (TextEncoder_encode s) \<le> 190 \<longrightarrow> truncateText s = s)
   \<and> truncateText (truncateText s) = truncateText s"
proof -
  have "length (TextEncoder_encode (truncateText s)) \<le> MAX_BYTES"
    by (rule truncateText_le)
  then have "truncateText (truncateText s) = truncateText s"
    by (rule truncateText_safe)
  then show ?thesis using truncateText_safe [of s] by (simp add: MAX_BYTES_def)
qed

theorem truncateText_idempotent_witness:
  "truncateText [0x48, 0x65, 0x6C, 0x6C, 0x6F] = [0x48, 0x65, 0x6C, 0x6C, 0x6F]
   \<and> truncateText (truncateText [0x48, 0x65, 0x6C, 0x6C, 0x6F])
       = truncateText [0x48, 0x65, 0x6C, 0x6C, 0x6F]"
proof -
  have "length (TextEncoder_encode [0x48, 0x65, 0x6C, 0x6C, 0x6F]) \<le> 190"
    by (simp only: TextEncoder_encode_Hello) simp
  then show ?thesis
    using truncateText_idempotent [of "[0x48, 0x65, 0x6C, 0x6C, 0x6F]"] by blast
qed


section \<open>Truncation of a text with characters outside the Basic Multilingual Plane\<close>

lemma TextEncoder_encode_ascii_append:
  "\<forall>u \<in> set us. u < 0x80 \<Longrightarrow>
     TextEncoder_encode (us @ vs) = map unat us @ TextEncoder_encode vs"
proof (induction us)
  case Nil
  then show ?case by simp
next
  case (Cons u us)
  then have u: "u < 0x80" by simp
  then have nh: "\<not> is_high_surrogate u" and nl: "\<not> is_low_surrogate u"
    by (simp_all add: is_high_surrogate_def is_low_surrogate_def word_le_nat_alt
        word_less_nat_alt)
  have "unat u < 0x80" using u by (simp add: word_less_nat_alt)
  then have "utf8_of_code_point (lone_unit u) = [unat u]"
    using nh nl by (simp add: lone_unit_def utf8_of_code_point_def)
  then show ?case
    using Cons by (simp add: TextEncoder_encode_not_high [OF nh])
qed

lemma length_encode_a:
  "length (TextEncoder_encode (replicate n 0x61 @ vs)) = n + length (TextEncoder_encode vs)"
  by (subst TextEncoder_encode_ascii_append) simp_all

lemma surrogates: "is_high_surrogate 0xD83D" "is_low_surrogate 0xDE00"
  "\<not> is_low_surrogate 0xD83D" "\<not> is_high_surrogate 0xDE00"
  "\<not> is_low_surrogate 0x2E" "\<not> is_high_surrogate 0x2E"
  by (simp_all add: is_high_surrogate_def is_low_surrogate_def)

lemma emoji_lengths:
  "length (TextEncoder_encode [0xD83D, 0xDE00, 0xD83D, 0xDE00]) = 8"
  "length (TextEncoder_encode [0xD83D, 0xDE00, 0xD83D]) = 7"
  "length (TextEncoder_encode [0xD83D, 0xDE00]) = 4"
  "length (TextEncoder_encode [0xD83D, 0xDE00, 0x2E, 0x2E, 0x2E]) = 7"
  "length (TextEncoder_encode [0xD83D, 0x2E, 0x2E, 0x2E]) = 6"
  by (simp_all add: surrogates lone_unit_def utf8_of_code_point_def)

lemma trim_to_budget_emoji:
  "trim_to_budget (replicate 184 0x61 @ [0xD83D, 0xDE00, 0xD83D, 0xDE00])
     = replicate 184 0x61 @ [0xD83D, 0xDE00]"
proof -
  have "trim_to_budget (replicate 184 0x61 @ [0xD83D, 0xDE00, 0xD83D, 0xDE00])
          = trim_to_budget (replicate 184 0x61 @ [0xD83D, 0xDE00, 0xD83D])"
    by (subst trim_to_budget.simps)
      (simp add: length_encode_a emoji_lengths MAX_BYTES_def butlast_append
        del: TextEncoder_encode.simps)
  also have "\<dots> = trim_to_budget (replicate 184 0x61 @ [0xD83D, 0xDE00])"
    by (subst trim_to_budget.simps)
      (simp add: length_encode_a emoji_lengths MAX_BYTES_def butlast_append
        del: TextEncoder_encode.simps)
  also have "\<dots> = replicate 184 0x61 @ [0xD83D, 0xDE00]"
    by (subst trim_to_budget.simps)
      (simp add: length_encode_a emoji_lengths MAX_BYTES_def del: TextEncoder_encode.simps)
  finally show ?thesis .
qed

lemma trim_for_ellipsis_emoji:
  "trim_for_ellipsis (replicate 184 0x61 @ [0xD83D, 0xDE00]) = replicate 184 0x61 @ [0xD83D]"
proof -
  have "trim_for_ellipsis (replicate 184 0x61 @ [0xD83D, 0xDE00])
          = trim_for_ellipsis (replicate 184 0x61 @ [0xD83D])"
    by (subst trim_for_ellipsis.simps)
      (simp add: length_encode_a emoji_lengths MAX_BYTES_def butlast_append ellipsis_def
        del: TextEncoder_encode.simps)
  also have "\<dots> = replicate 184 0x61 @ [0xD83D]"
    by (subst trim_for_ellipsis.simps)
      (simp add: length_encode_a emoji_lengths MAX_BYTES_def ellipsis_def
        del: TextEncoder_encode.simps)
  finally show ?thesis .
qed

text \<open>
  C4. The input is 184 letters \<open>a\<close> and twice U+1F600 (the surrogate pair D83D DE00):
  192 UTF-8 bytes. The trimming drops one UTF-16 code unit at a time; the result ends in
  the high surrogate D83D without its low half, followed by the ellipsis, and its UTF-8
  encoding has U+FFFD (EF BF BD) where the character was cut.
\<close>

theorem truncateText_splits_surrogate_pair:
  "truncateText (replicate 184 0x61 @ [0xD83D, 0xDE00, 0xD83D, 0xDE00])
     = replicate 184 0x61 @ [0xD83D, 0x2E, 0x2E, 0x2E]
   \<and> TextEncoder_encode (replicate 184 0x61 @ [0xD83D, 0x2E, 0x2E, 0x2E])
     = replicate 184 0x61 @ [0xEF, 0xBF, 0xBD, 0x2E, 0x2E, 0x2E]"
proof -
  have "truncateText (replicate 184 0x61 @ [0xD83D, 0xDE00, 0xD83D, 0xDE00])
          = replicate 184 0x61 @ [0xD83D, 0x2E, 0x2E, 0x2E]"
    by (simp add: truncateText_def trim_to_budget_emoji trim_for_ellipsis_emoji ellipsis_def)
  moreover have "TextEncoder_encode (replicate 184 0x61 @ [0xD83D, 0x2E, 0x2E, 0x2E])
          = replicate 184 0x61 @ [0xEF, 0xBF, 0xBD, 0x2E, 0x2E, 0x2E]"
    by (subst TextEncoder_encode_ascii_append)
      (simp_all add: surrogates lone_unit_def utf8_of_code_point_def)
  ultimately show ?thesis by simp
qed

section \<open>The connection manager\<close>

lemma connect_catch_effect:
  "snd (connect_catch e s) = setConnected False s"
  by (simp add: connect_catch_def Let_def)

lemma connect_catch_error:
  "fst (connect_catch e s) =
     Inl (if e = NotFoundError then NoDeviceSelected
          else if e = SecurityError then SecurityErrorHttps
          else if e = NetworkError then NetworkErrorInUse
          else Rethrown e)"
  by (simp add: connect_catch_def Let_def)

text \<open>
  C6 (amended). When the Web Serial API is missing, \<open>connect\<close> throws with no state
  change. Every other failure (the picker or \<open>open\<close> raised) goes through the \<open>catch\<close>
  block: the state is Disconnected afterwards, every subscribed listener is called once
  with \<open>false\<close>, a port the user picked stays assigned, and the error is
  \<open>NoDeviceSelected\<close> exactly when the platform's exception was a NotFoundError (the
  user dismissed the picker).
\<close>

theorem connect_failure:
  assumes "connect serialInNavigator requestPortResult openResult s = (Inl e, s')"
  shows "if \<not> serialInNavigator then s' = s \<and> e = WebSerialNotSupported
         else \<not> isConnected s'
            \<and> notified s' = notified s @ map (\<lambda>cb. (cb, False)) (statusListeners s)
            \<and> statusListeners s' = statusListeners s
            \<and> port s' = (case requestPortResult of Inl x \<Rightarrow> port s | Inr p \<Rightarrow> Some p)
            \<and> (e = NoDeviceSelected \<longleftrightarrow>
                 requestPortResult = Inl NotFoundError
                 \<or> (\<exists>p. requestPortResult = Inr p) \<and> openResult = Some NotFoundError)"
proof (cases serialInNavigator)
  case False
  then show ?thesis using assms by (simp add: connect_def)
next
  case True
  show ?thesis
  proof (cases requestPortResult)
    case (Inl x)
    then have "connect_catch x s = (Inl e, s')" using assms True by (simp add: connect_def)
    then show ?thesis
      using True Inl
      by (auto simp: connect_catch_def setConnected_def Let_def split: if_splits)
  next
    case (Inr p)
    show ?thesis
    proof (cases openResult)
      case None
      then show ?thesis using assms True Inr by (simp add: connect_def Let_def)
    next
      case (Some x)
      then have "connect_catch x (s\<lparr>port := Some p\<rparr>) = (Inl e, s')"
        using assms True Inr by (simp add: connect_def Let_def)
      then show ?thesis
        using True Inr Some
        by (auto simp: connect_catch_def setConnected_def Let_def split: if_splits)
    qed
  qed
qed

text \<open>
  The device is busy: the user picks port 3, \<open>open\<close> raises a NetworkError, two
  listeners are subscribed.
\<close>

theorem connect_failure_witness:
  "fst (connect True (Inr 3) (Some NetworkError)
     \<lparr>port = None, writer = None, isConnected = False, statusListeners = [7, 8],
      opened = {}, locked = {}, notified = [], written = [], requests = []\<rparr>)
     = Inl NetworkErrorInUse
   \<and> \<not> isConnected (snd (connect True (Inr 3) (Some NetworkError)
     \<lparr>port = None, writer = None, isConnected = False, statusListeners = [7, 8],
      opened = {}, locked = {}, notified = [], written = [], requests = []\<rparr>))
   \<and> notified (snd (connect True (Inr 3) (Some NetworkError)
     \<lparr>port = None, writer = None, isConnected = False, statusListeners = [7, 8],
      opened = {}, locked = {}, notified = [], written = [], requests = []\<rparr>))
     = [(7, False), (8, False)]
   \<and> port (snd (connect True (Inr 3) (Some NetworkError)
     \<lparr>port = None, writer = None, isConnected = False, statusListeners = [7, 8],
      opened = {}, locked = {}, notified = [], written = [], requests = []\<rparr>))
     = Some 3"
proof -
  define s :: state where
    "s = \<lparr>port = None, writer = None, isConnected = False, statusListeners = [7, 8],
      opened = {}, locked = {}, notified = [], written = [], requests = []\<rparr>"
  define r where "r = connect True (Inr 3) (Some NetworkError) s"
  have e: "fst r = Inl NetworkErrorInUse"
    by (simp add: r_def connect_def connect_catch_def Let_def)
  then have run: "connect True (Inr 3) (Some NetworkError) s = (Inl NetworkErrorInUse, snd r)"
    unfolding r_def by (metis prod.collapse)
  have "\<not> isConnected (snd r) \<and> notified (snd r) = [(7, False), (8, False)]
          \<and> port (snd r) = Some 3"
    using connect_failure [OF run] by (simp add: s_def)
  then show ?thesis using e unfolding r_def s_def by simp
qed

text \<open>
  The user dismisses the picker while one listener is subscribed: the listener is called
  with \<open>false\<close>.
\<close>

theorem connect_cancel_notifies_counterexample:
  "connect True (Inl NotFoundError) None
     \<lparr>port = None, writer = None, isConnected = False, statusListeners = [7],
      opened = {}, locked = {}, notified = [], written = [], requests = []\<rparr>
   = (Inl NoDeviceSelected,
      \<lparr>port = None, writer = None, isConnected = False, statusListeners = [7],
       opened = {}, locked = {}, notified = [(7, False)], written = [], requests = []\<rparr>)"
  by (simp add: connect_def connect_catch_def setConnected_def Let_def)

text \<open>
  C7. In serial mode while Disconnected, \<open>sendToMeshtastic\<close> throws "Device not
  connected" before the truncation, the composition and the write: the state, with the
  bytes written so far, is unchanged. \<open>sendText\<close> called directly refuses as well.
\<close>

theorem send_while_disconnected:
  assumes "connectionMode config = Serial" and "\<not> isConnected s"
  shows "sendToMeshtastic config text packetId writeResult fetchResult s
           = (Inl DeviceNotConnected, s)
       \<and> sendText text channelIndex packetId writeResult s = (Inl SerialPortNotConnected, s)"
  using assms
  by (simp add: sendToMeshtastic_def getConnectedStatus_def sendText_def split: option.splits)

theorem send_while_disconnected_witness:
  "sendToMeshtastic
     \<lparr>connectionMode = Serial, meshtasticIp = ''192.168.1.10'', meshtasticChannelIndex = 0,
      corsProxy = [], srApiUrl = []\<rparr>
     [0x48, 0x65, 0x6C, 0x6C, 0x6F] 0x12345678 None (Inl NetworkError) initial
     = (Inl DeviceNotConnected, initial)
   \<and> sendText [0x48, 0x65, 0x6C, 0x6C, 0x6F] 0 0x12345678 None initial
     = (Inl SerialPortNotConnected, initial)
   \<and> written initial = []"
proof -
  have a: "connectionMode \<lparr>connectionMode = Serial, meshtasticIp = ''192.168.1.10'',
      meshtasticChannelIndex = 0, corsProxy = [], srApiUrl = []\<rparr> = Serial"
    by simp
  have b: "\<not> isConnected initial" by (simp add: initial_def)
  show ?thesis
    using send_while_disconnected [OF a b, of "[0x48, 0x65, 0x6C, 0x6C, 0x6F]"
        "0x12345678" None "Inl NetworkError" 0]
    by (simp add: initial_def)
qed

section \<open>The invariant of the connection manager\<close>

lemma setConnected_fields:
  "port (setConnected b s) = port s" "writer (setConnected b s) = writer s"
  "locked (setConnected b s) = locked s" "isConnected (setConnected b s) = b"
  "opened (setConnected b s) = opened s" "written (setConnected b s) = written s"
  by (simp_all add: setConnected_def)










lemma cleanupAndNotify_opened:
  "\<not> c \<Longrightarrow> port s = Some p \<Longrightarrow> p \<notin> opened (cleanupAndNotify r c s)"
  by (simp add: cleanupAndNotify_def setConnected_def Let_def split: option.splits)







section \<open>The two transports of sendToMeshtastic\<close>

lemma sendToMeshtastic_http_requests:
  assumes "connectionMode config = Http"
  shows "requests (snd (sendToMeshtastic config t packetId writeResult fetchResult s))
           = requests s @
             [\<lparr>url = normalize_host (meshtasticIp config) @ ''/api/v1/toRadio'',
               http_method = ''PUT'', content_type = ''application/json'',
               body = \<lparr>to = 4294967295, decoded_text = t, decoded_portnum = 1,
                        channel = meshtasticChannelIndex config, want_ack = True\<rparr>\<rparr>]"
    and "written (snd (sendToMeshtastic config t packetId writeResult fetchResult s))
           = written s"
  using assms
  by (simp_all add: sendToMeshtastic_def Let_def split: sum.splits option.splits)

lemma sendToMeshtastic_serial:
  assumes "connectionMode config = Serial" and "port s = Some p" and "isConnected s"
    and "p \<in> opened s" and "p \<notin> locked s" and "meshtasticChannelIndex config \<le> 7"
  shows "sendToMeshtastic config t packetId None fetchResult s
           = (Inr (SerialMessage ''Message sent to Serial (Binary)''),
              s\<lparr>written := written s @
                   [(p, spec_SerialFrame
                          (spec_ToRadio (meshtasticChannelIndex config)
                             (TextEncoder_encode (truncateText t)) packetId))]\<rparr>)"
proof -
  have "length (TextEncoder_encode (truncateText t)) \<le> 190"
    using truncateText_le [of t] by (simp add: MAX_BYTES_def)
  then have "sendText (truncateText t) (meshtasticChannelIndex config) packetId None s
         = (Inr ''Message sent to Serial (Binary)'',
            s\<lparr>written := written s @
                 [(p, spec_SerialFrame
                        (spec_ToRadio (meshtasticChannelIndex config)
                           (TextEncoder_encode (truncateText t)) packetId))]\<rparr>)"
    using assms(2-6) by (intro sendText_writes_spec_frame)
  then show ?thesis
    using assms(1,3) by (simp add: sendToMeshtastic_def getConnectedStatus_def)
qed

text \<open>
  C10 (amended). The truncation is part of the serial path only. In serial mode on a
  connected handler the payload that is framed and written is the UTF-8 encoding of the
  truncated text. On the network path the request body carries the raw request text
  as \<open>decoded.text\<close>, with \<open>to = 4294967295\<close>, \<open>portnum = 1\<close>, the configured channel
  and \<open>want_ack = true\<close>, and nothing is written to the serial port.
\<close>

theorem sendToMeshtastic_text_by_transport:
  "(connectionMode config = Http \<longrightarrow>
      requests (snd (sendToMeshtastic config t packetId writeResult fetchResult s))
        = requests s @
          [\<lparr>url = normalize_host (meshtasticIp config) @ ''/api/v1/toRadio'',
            http_method = ''PUT'', content_type = ''application/json'',
            body = \<lparr>to = 4294967295, decoded_text = t, decoded_portnum = 1,
                     channel = meshtasticChannelIndex config, want_ack = True\<rparr>\<rparr>]
      \<and> written (snd (sendToMeshtastic config t packetId writeResult fetchResult s))
        = written s)
   \<and> (connectionMode config = Serial \<and> port s = Some p \<and> isConnected s
        \<and> p \<in> opened s \<and> p \<notin> locked s \<and> meshtasticChannelIndex config \<le> 7 \<longrightarrow>
      sendToMeshtastic config t packetId None fetchResult s
        = (Inr (SerialMessage ''Message sent to Serial (Binary)''),
           s\<lparr>written := written s @
                [(p, spec_SerialFrame
                       (spec_ToRadio (meshtasticChannelIndex config)
                          (TextEncoder_encode (truncateText t)) packetId))]\<rparr>)
      \<and> length (TextEncoder_encode (truncateText t)) \<le> 190)"
proof -
  have "length (TextEncoder_encode (truncateText t)) \<le> 190"
    using truncateText_le [of t] by (simp add: MAX_BYTES_def)
  then show ?thesis
    using sendToMeshtastic_http_requests [of config t packetId writeResult fetchResult s]
      sendToMeshtastic_serial [of config s p t packetId fetchResult]
    by blast
qed

lemma normalize_host_default: "normalize_host ''192.168.1.10'' = ''http://192.168.1.10''"
  by (simp add: normalize_host_def startsWith_def strip_trailing_slash_def)

lemma encode_200: "length (TextEncoder_encode (replicate 200 0x61)) = 200"
  using length_encode_a [of 200 "[]"] by simp

text \<open>
  HTTP mode with the default device address and a text of 200 letters \<open>a\<close>: the request
  body carries all 200 letters.
\<close>

theorem sendToMeshtastic_text_by_transport_witness:
  "requests (snd (sendToMeshtastic
      \<lparr>connectionMode = Http, meshtasticIp = ''192.168.1.10'', meshtasticChannelIndex = 0,
       corsProxy = [], srApiUrl = []\<rparr>
      (replicate 200 0x61) 0 None (Inl NetworkError) initial))
   = [\<lparr>url = ''http://192.168.1.10/api/v1/toRadio'', http_method = ''PUT'',
       content_type = ''application/json'',
       body = \<lparr>to = 4294967295, decoded_text = replicate 200 0x61, decoded_portnum = 1,
                channel = 0, want_ack = True\<rparr>\<rparr>]"
  using sendToMeshtastic_text_by_transport [of
      "\<lparr>connectionMode = Http, meshtasticIp = ''192.168.1.10'', meshtasticChannelIndex = 0,
        corsProxy = [], srApiUrl = []\<rparr>"
      "replicate 200 0x61" 0 None "Inl NetworkError" initial 0]
  by (simp add: normalize_host_default initial_def)

text \<open>
  The same request: its \<open>decoded.text\<close> has 200 UTF-8 bytes and is not the truncated
  text.
\<close>

theorem http_text_not_truncated_counterexample:
  "map (\<lambda>r. decoded_text (body r))
     (requests (snd (sendToMeshtastic
        \<lparr>connectionMode = Http, meshtasticIp = ''192.168.1.10'', meshtasticChannelIndex = 0,
         corsProxy = [], srApiUrl = []\<rparr>
        (replicate 200 0x61) 0 None
        (Inr \<lparr>ok = True, status = 200, statusText = ''OK'', content_type_header = None,
              response_body = [], body_is_json = False\<rparr>)
        initial)))
   = [replicate 200 0x61]
   \<and> length (TextEncoder_encode (replicate 200 0x61)) = 200
   \<and> truncateText (replicate 200 0x61) \<noteq> replicate 200 0x61"
proof -
  have a: "length (TextEncoder_encode (replicate 200 0x61)) = 200" by (rule encode_200)
  have "length (TextEncoder_encode (truncateText (replicate 200 0x61))) \<le> MAX_BYTES"
    by (rule truncateText_le)
  then have b: "truncateText (replicate 200 0x61) \<noteq> replicate 200 0x61"
    using a by (auto simp: MAX_BYTES_def)
  have c: "map (\<lambda>r. decoded_text (body r))
     (requests (snd (sendToMeshtastic
        \<lparr>connectionMode = Http, meshtasticIp = ''192.168.1.10'', meshtasticChannelIndex = 0,
         corsProxy = [], srApiUrl = []\<rparr>
        (replicate 200 0x61) 0 None
        (Inr \<lparr>ok = True, status = 200, statusText = ''OK'', content_type_header = None,
              response_body = [], body_is_json = False\<rparr>)
        initial)))
   = [replicate 200 0x61]"
    by (simp add: sendToMeshtastic_http_requests initial_def)
  from a b c show ?thesis by blast
qed

end
